theory Spec2Isabelle
  imports Complex_Main
begin

section \<open>Downstream pour points: the data\<close>

text \<open>
  The program (DownstreamPoints_v03.py) drives a geoprocessing library. The model keeps
  what the program itself decides and takes the library's part as data or as a parameter:
  \<^item> a feature of the stream network is a record of the attributes the tracer reads
    (OBJECTID, StrahlerOr, FROM_NODE, TO_NODE, Shape_Length) and of the first point of
    its geometry; lengths and coordinates are reals (the rounding of the float sum is
    not modelled, coordinates are only passed on);
  \<^item> a feature of the site collection carries its object id, its label (field Sites)
    and its point;
  \<^item> a layer is a named view of features with a current selection; cursors and
    GetCount see the selection, and a fresh layer sees all its features;
  \<^item> the layers live in one namespace, a map from layer names to layers;
  \<^item> the spatial test behind SelectLayerByLocation is a parameter \<open>intersects\<close>;
    so is what the insert cursor does with a row whose geometry is the value False.
\<close>

type_synonym point = "real \<times> real"

record segment =
  OBJECTID :: int
  StrahlerOr :: int
  FROM_NODE :: int
  TO_NODE :: int
  Shape_Length :: real
  firstPoint :: point

record site =
  site_OID :: int
  Sites :: string
  site_point :: point

datatype feature = Stream segment | Site site

record layer =
  features :: "feature list"
  selected :: "feature list"

type_synonym layers = "string \<rightharpoonup> layer"

record stream_fc =
  field_names :: "string list"
  fc_rows :: "segment list"

text \<open>Exceptions that are raised and never caught in the program.\<close>

datatype exn = KeyError | IndexError | UnboundLocalError | ExecuteError | TypeError

text \<open>
  Failures that the program reports with AddError before it returns False, under the
  names the specification gives them:
  \<^item> \<open>IncompatibleSchema\<close>: "Input stream network fields are not compatible."
  \<^item> \<open>AmbiguousOrMissingSegment\<close>: "Could not find closest stream."
  \<^item> \<open>OrderInversion\<close>: "Final Strahler Order is less than initial!"
  \<^item> \<open>SiteSelectionFailed\<close>: "MakeFeatureLayer of site ... failed."
\<close>

datatype failure =
  IncompatibleSchema | AmbiguousOrMissingSegment | OrderInversion | SiteSelectionFailed

section \<open>The geoprocessing calls the program makes\<close>

definition fresh_layer :: "feature list \<Rightarrow> layer" where
  "fresh_layer fs = \<lparr>features = fs, selected = fs\<rparr>"

text \<open>MakeFeatureLayer from a layer: the new layer holds the features the source shows.
  The program sets overwriteOutput, so an existing layer of that name is replaced.\<close>

definition MakeFeatureLayer :: "layers \<Rightarrow> string \<Rightarrow> string \<Rightarrow> exn + layers" where
  "MakeFeatureLayer lyrs src name =
     (case lyrs src of
        None \<Rightarrow> Inl ExecuteError
      | Some l \<Rightarrow> Inr (lyrs(name \<mapsto> fresh_layer (selected l))))"

definition GetCount :: "layer \<Rightarrow> nat" where
  "GetCount l = length (selected l)"

text \<open>SelectLayerByLocation (INTERSECT, NEW_SELECTION): the features of the target layer
  that intersect, within the tolerance, a feature the selecting layer shows.\<close>

definition SelectLayerByLocation ::
  "('t \<Rightarrow> feature \<Rightarrow> feature \<Rightarrow> bool) \<Rightarrow> layers \<Rightarrow> string \<Rightarrow> string \<Rightarrow> 't \<Rightarrow> exn + layers" where
  "SelectLayerByLocation intersects lyrs target selecting tolerance =
     (case lyrs target of
        None \<Rightarrow> Inl ExecuteError
      | Some t \<Rightarrow>
          (case lyrs selecting of
             None \<Rightarrow> Inl ExecuteError
           | Some s \<Rightarrow>
               Inr (lyrs(target \<mapsto>
                 t\<lparr>selected :=
                   filter (\<lambda>f. list_ex (\<lambda>g. intersects tolerance g f) (selected s))
                     (features t)\<rparr>))))"

text \<open>SelectLayerByAttribute (NEW_SELECTION) with the two queries the program builds,
  "FROM_NODE = n" and "OBJECTID = i". A site has an object id and no FROM_NODE.\<close>

fun FROM_NODE_is :: "int \<Rightarrow> feature \<Rightarrow> bool" where
  "FROM_NODE_is n (Stream s) = (FROM_NODE s = n)"
| "FROM_NODE_is n (Site t) = False"

fun OBJECTID_is :: "int \<Rightarrow> feature \<Rightarrow> bool" where
  "OBJECTID_is i (Stream s) = (OBJECTID s = i)"
| "OBJECTID_is i (Site t) = (site_OID t = i)"

definition SelectLayerByAttribute :: "layer \<Rightarrow> (feature \<Rightarrow> bool) \<Rightarrow> layer" where
  "SelectLayerByAttribute l sql = l\<lparr>selected := filter sql (features l)\<rparr>"

section \<open>ValidateInputStreams\<close>

definition req_fields :: "string list" where
  "req_fields = [''OBJECTID'', ''StrahlerOr'', ''FROM_NODE'', ''TO_NODE'']"

definition ValidateInputStreams :: "stream_fc \<Rightarrow> bool" where
  "ValidateInputStreams streams = (set req_fields \<subseteq> set (field_names streams))"

section \<open>DictionaryOfLayerFeatures\<close>

text \<open>The cursor loop writes every row's values under the same keys, so each row
  replaces the dictionary of the row before it; with no row the dictionary stays empty
  (None).\<close>

definition DictionaryOfLayerFeatures :: "layer \<Rightarrow> feature option" where
  "DictionaryOfLayerFeatures l = foldl (\<lambda>dictionary row. Some row) None (selected l)"

text \<open>Reading an attribute of the stream table from such a dictionary: KeyError when
  the dictionary is empty or is that of a site.\<close>

fun getitem :: "feature option \<Rightarrow> (segment \<Rightarrow> 'a) \<Rightarrow> exn + 'a" where
  "getitem (Some (Stream s)) field = Inr (field s)"
| "getitem _ field = Inl KeyError"

section \<open>FindDownstreamPoint\<close>

text \<open>The local variables of the search.\<close>

record trace_state =
  start :: segment
  StrOr_initial :: int
  StrOr_current :: int
  downstream_segments :: "int list"
  downstream_length :: real

text \<open>
  One pass through the body of the while loop (lines 119 to 151), on the layer that
  the name stream_lyr denotes: the name is used for nothing else inside the loop. The
  body raises, or returns False after its error message, or falls through with the
  updated variables.
\<close>

definition swim_body :: "layer \<Rightarrow> trace_state \<Rightarrow> exn + (failure + trace_state) \<times> layer" where
  "swim_body stream_lyr st =
     (let lyr1 = SelectLayerByAttribute stream_lyr (FROM_NODE_is (TO_NODE (start st)));
          downstream = DictionaryOfLayerFeatures lyr1
      in case getitem downstream (\<lambda>d. d) of
           Inl e \<Rightarrow> Inl e
         | Inr d \<Rightarrow>
             if StrahlerOr d = StrOr_initial st then
               Inr (Inr (st\<lparr>StrOr_current := StrahlerOr d,
                              downstream_segments := downstream_segments st @ [OBJECTID d],
                              downstream_length := downstream_length st + Shape_Length d,
                              start := d\<rparr>), lyr1)
             else if StrahlerOr d > StrOr_initial st then
               (case downstream_segments st of
                  [] \<Rightarrow> Inl IndexError
                | _ \<Rightarrow>
                    Inr (Inr (st\<lparr>StrOr_current := StrahlerOr d\<rparr>),
                         SelectLayerByAttribute lyr1
                           (OBJECTID_is (last (downstream_segments st)))))
             else Inr (Inl OrderInversion, lyr1))"

text \<open>The while loop. It has no bound on the number of passes, so it is a partial
  function: None is a search that never ends.\<close>

partial_function (option) swim ::
  "layer \<Rightarrow> trace_state \<Rightarrow> (exn + (failure + trace_state) \<times> layer) option" where
  "swim stream_lyr st =
     (if StrOr_current st = StrOr_initial st then
        (case swim_body stream_lyr st of
           Inl e \<Rightarrow> Some (Inl e)
         | Inr (Inl f, lyr) \<Rightarrow> Some (Inr (Inl f, lyr))
         | Inr (Inr st', lyr) \<Rightarrow> swim lyr st')
      else Some (Inr (Inr st, stream_lyr)))"

text \<open>Lines 153 to 161: the first point of the geometry of the last row the cursor
  yields; with no row the coordinates are never bound.\<close>

fun shape_firstPoint :: "feature \<Rightarrow> point" where
  "shape_firstPoint (Stream s) = firstPoint s"
| "shape_firstPoint (Site t) = site_point t"

definition endpoint :: "layer \<Rightarrow> exn + point" where
  "endpoint l =
     (case foldl (\<lambda>xy row. Some (shape_firstPoint row)) None (selected l) of
        None \<Rightarrow> Inl UnboundLocalError
      | Some xy \<Rightarrow> Inr xy)"

text \<open>The start of the search (lines 109 to 114).\<close>

definition initial_state :: "segment \<Rightarrow> trace_state" where
  "initial_state s =
     \<lparr>start = s, StrOr_initial = StrahlerOr s, StrOr_current = StrahlerOr s,
      downstream_segments = [OBJECTID s], downstream_length = 0\<rparr>"

text \<open>
  The whole function. Its value is None when the search never ends; otherwise an
  exception, or the returned value (a failure stands for the value False returned after
  that error message) with the layers as the call leaves them.
\<close>

definition FindDownstreamPoint ::
  "('t \<Rightarrow> feature \<Rightarrow> feature \<Rightarrow> bool) \<Rightarrow> layers \<Rightarrow> string \<Rightarrow> string \<Rightarrow> 't
     \<Rightarrow> (exn + (failure + point) \<times> layers) option" where
  "FindDownstreamPoint intersects lyrs site_lyr stream_lyr tolerance =
     (case SelectLayerByLocation intersects lyrs stream_lyr site_lyr tolerance of
        Inl e \<Rightarrow> Some (Inl e)
      | Inr lyrs1 \<Rightarrow>
          (case lyrs1 stream_lyr of
             None \<Rightarrow> Some (Inl ExecuteError)
           | Some sel \<Rightarrow>
               if GetCount sel = 1 then
                 (case MakeFeatureLayer lyrs1 stream_lyr ''start'' of
                    Inl e \<Rightarrow> Some (Inl e)
                  | Inr lyrs2 \<Rightarrow>
                      (case lyrs2 ''start'' of
                         None \<Rightarrow> Some (Inl ExecuteError)
                       | Some start_segment \<Rightarrow>
                           (case getitem (DictionaryOfLayerFeatures start_segment) (\<lambda>d. d) of
                              Inl e \<Rightarrow> Some (Inl e)
                            | Inr s \<Rightarrow>
                                (case lyrs2 stream_lyr of
                                   None \<Rightarrow> Some (Inl ExecuteError)
                                 | Some lyr \<Rightarrow>
                                     (case swim lyr (initial_state s) of
                                        None \<Rightarrow> None
                                      | Some (Inl e) \<Rightarrow> Some (Inl e)
                                      | Some (Inr (Inl f, lyr')) \<Rightarrow>
                                          Some (Inr (Inl f, lyrs2(stream_lyr \<mapsto> lyr')))
                                      | Some (Inr (Inr st, lyr')) \<Rightarrow>
                                          (case endpoint lyr' of
                                             Inl e \<Rightarrow> Some (Inl e)
                                           | Inr xy \<Rightarrow>
                                               Some (Inr (Inr xy,
                                                 lyrs2(stream_lyr \<mapsto> lyr')))))))))
               else Some (Inr (Inl AmbiguousOrMissingSegment, lyrs1))))"

section \<open>Main\<close>

text \<open>
  A row of the output feature class: the point and the text field Site. The program
  hands the insert cursor whatever FindDownstreamPoint returned. With a coordinate pair
  the cursor appends the row. What it does with the value False is the library's
  matter, not the program's: \<open>on_False\<close> is that behaviour, an exception or
  the rows afterwards.
\<close>

type_synonym out_row = "point \<times> string"

definition insertRow ::
  "(out_row list \<Rightarrow> string \<Rightarrow> exn + out_row list) \<Rightarrow> out_row list \<Rightarrow> failure + point \<Rightarrow> string
     \<Rightarrow> exn + out_row list" where
  "insertRow on_False out xy point_name =
     (case xy of
        Inr p \<Rightarrow> Inr (out @ [(p, point_name)])
      | Inl f \<Rightarrow> on_False out point_name)"

definition replace_spaces :: "string \<Rightarrow> string" where
  "replace_spaces label = map (\<lambda>c. if c = CHR '' '' then CHR ''_'' else c) label"

text \<open>How a run ends, and the output feature class it leaves (None: never created).
  A run starts with no layer in the namespace; the site and stream feature classes are
  data, not names in it.\<close>

datatype outcome = Raised exn | ReturnedFalse failure | ReturnedOutput

record run =
  outcome :: outcome
  output_rows :: "out_row list option"

text \<open>
  The loop over the site ids (lines 218 to 249). \<open>rnd\<close> is the sequence of random
  layer names: \<open>rnd 0\<close> names the stream layer, \<open>rnd (Suc k)\<close> the layer of the
  k-th site. The value is None when a search never ends.
\<close>

fun for_sites ::
  "('t \<Rightarrow> feature \<Rightarrow> feature \<Rightarrow> bool) \<Rightarrow> (out_row list \<Rightarrow> string \<Rightarrow> exn + out_row list)
     \<Rightarrow> (nat \<Rightarrow> string) \<Rightarrow> site list \<Rightarrow> string \<Rightarrow> 't
     \<Rightarrow> nat \<Rightarrow> int list \<Rightarrow> layers \<Rightarrow> out_row list \<Rightarrow> run option" where
  "for_sites intersects on_False rnd sites stream_lyr tolerance k [] lyrs out =
     Some \<lparr>outcome = ReturnedOutput, output_rows = Some out\<rparr>"
| "for_sites intersects on_False rnd sites stream_lyr tolerance k (s # site_list) lyrs out =
     (let site_lyr = rnd (Suc k);
          site_rows = filter (\<lambda>t. site_OID t = s) sites;
          lyrs1 = lyrs(site_lyr \<mapsto> fresh_layer (map Site site_rows))
      in case site_rows of
           [] \<Rightarrow> Some \<lparr>outcome = Raised IndexError, output_rows = Some out\<rparr>
         | t # _ \<Rightarrow>
             (let point_name = replace_spaces (Sites t)
              in if length site_rows = 1 then
                   (case FindDownstreamPoint intersects lyrs1 site_lyr stream_lyr tolerance of
                      None \<Rightarrow> None
                    | Some (Inl e) \<Rightarrow> Some \<lparr>outcome = Raised e, output_rows = Some out\<rparr>
                    | Some (Inr (xy, lyrs2)) \<Rightarrow>
                        (case insertRow on_False out xy point_name of
                           Inl e \<Rightarrow> Some \<lparr>outcome = Raised e, output_rows = Some out\<rparr>
                         | Inr out' \<Rightarrow>
                             for_sites intersects on_False rnd sites stream_lyr tolerance
                               (Suc k) site_list (lyrs2(site_lyr := None)) out'))
                 else Some \<lparr>outcome = ReturnedFalse SiteSelectionFailed, output_rows = Some out\<rparr>))"

definition Main ::
  "('t \<Rightarrow> feature \<Rightarrow> feature \<Rightarrow> bool) \<Rightarrow> (out_row list \<Rightarrow> string \<Rightarrow> exn + out_row list)
     \<Rightarrow> (nat \<Rightarrow> string) \<Rightarrow> site list \<Rightarrow> stream_fc \<Rightarrow> 't \<Rightarrow> run option" where
  "Main intersects on_False rnd sites streams tolerance =
     (if ValidateInputStreams streams then
        (let stream_lyr = rnd 0;
             lyrs = [stream_lyr \<mapsto> fresh_layer (map Stream (fc_rows streams))];
             site_list = map site_OID sites
         in for_sites intersects on_False rnd sites stream_lyr tolerance 0 site_list lyrs [])
      else Some \<lparr>outcome = ReturnedFalse IncompatibleSchema, output_rows = None\<rparr>)"

section \<open>Notions the properties are stated with\<close>

text \<open>The successor the loop finds from a segment of the network \<open>rows\<close>: of the rows
  whose FROM_NODE is the segment's TO_NODE, the last one in cursor order.\<close>

definition downstream_of :: "segment list \<Rightarrow> segment \<Rightarrow> segment option" where
  "downstream_of rows s =
     (case filter (\<lambda>r. FROM_NODE r = TO_NODE s) rows of
        [] \<Rightarrow> None
      | d # ds \<Rightarrow> Some (last (d # ds)))"

text \<open>\<open>chain rows s ds\<close>: the segments \<open>ds\<close> are the successive successors of \<open>s\<close>.\<close>

fun chain :: "segment list \<Rightarrow> segment \<Rightarrow> segment list \<Rightarrow> bool" where
  "chain rows s [] = True"
| "chain rows s (d # ds) = (downstream_of rows s = Some d \<and> chain rows d ds)"

text \<open>The segment reached after n hops, if every hop finds a successor.\<close>

fun hops :: "segment list \<Rightarrow> segment \<Rightarrow> nat \<Rightarrow> segment option" where
  "hops rows s 0 = Some s"
| "hops rows s (Suc n) =
     (case downstream_of rows s of None \<Rightarrow> None | Some d \<Rightarrow> hops rows d n)"

text \<open>After n hops the chain has left the order \<open>ord\<close>: the n-th hop finds no
  successor, or a segment of another order.\<close>

definition leaves_order :: "segment list \<Rightarrow> segment \<Rightarrow> int \<Rightarrow> nat \<Rightarrow> bool" where
  "leaves_order rows s ord n =
     (case hops rows s n of None \<Rightarrow> True | Some d \<Rightarrow> StrahlerOr d \<noteq> ord)"

text \<open>The names the program draws: seven characters, upper-case letters and digits.\<close>

definition is_random_name :: "string \<Rightarrow> bool" where
  "is_random_name name =
     (length name = 7 \<and> set name \<subseteq> set ''ABCDEFGHIJKLMNOPQRSTUVWXYZ0123456789'')"

section \<open>Test networks\<close>

text \<open>Segments are written as id, order, from-node, to-node, length, first point.\<close>

definition seg :: "int \<Rightarrow> int \<Rightarrow> int \<Rightarrow> int \<Rightarrow> real \<Rightarrow> point \<Rightarrow> segment" where
  "seg i ord f t len p =
     \<lparr>OBJECTID = i, StrahlerOr = ord, FROM_NODE = f, TO_NODE = t, Shape_Length = len,
      firstPoint = p\<rparr>"

text \<open>The chain of the specification: orders 2, 2, 2, 3 and lengths 10, 20, 30, 5.\<close>

definition chain4 :: "segment list" where
  "chain4 = [seg 1 2 1 2 10 (0, 0), seg 2 2 2 3 20 (10, 0), seg 3 2 3 4 30 (30, 0),
             seg 4 3 4 5 5 (60, 0)]"

text \<open>Orders 2, 3 from the first hop, and a separate order-1 segment (id 9) whose
  to-node no segment leaves.\<close>

definition chain23 :: "segment list" where
  "chain23 = [seg 1 2 1 2 10 (0, 0), seg 2 3 2 3 5 (10, 0), seg 9 1 8 9 7 (100, 100)]"

text \<open>Orders 2, 1: the order falls downstream.\<close>

definition chain21 :: "segment list" where
  "chain21 = [seg 1 2 1 2 10 (0, 0), seg 2 1 2 3 5 (10, 0)]"

text \<open>Two segments leave node 2: one of order 1 (id 2) and one of order 2 (id 3).\<close>

definition fork :: "segment list" where
  "fork = [seg 1 1 1 2 10 (0, 0), seg 2 1 2 3 20 (10, 0), seg 3 2 2 4 5 (10, 0)]"

text \<open>Two segments of order 2 that feed each other.\<close>

definition cycle :: "segment list" where
  "cycle = [seg 1 2 1 2 10 (0, 0), seg 2 2 2 1 10 (10, 0)]"

definition site_A :: site where
  "site_A = \<lparr>site_OID = 1, Sites = ''Site A'', site_point = (0, 0)\<rparr>"

definition site_B :: site where
  "site_B = \<lparr>site_OID = 2, Sites = ''Site B'', site_point = (100, 100)\<rparr>"

definition site_far :: site where
  "site_far = \<lparr>site_OID = 3, Sites = ''Far site'', site_point = (500, 500)\<rparr>"

text \<open>A spatial test for the examples: two features meet when their first points are
  within the tolerance of each other in both coordinates.\<close>

definition within_tolerance :: "real \<Rightarrow> feature \<Rightarrow> feature \<Rightarrow> bool" where
  "within_tolerance tolerance g f =
     (\<bar>fst (shape_firstPoint g) - fst (shape_firstPoint f)\<bar> \<le> tolerance \<and>
      \<bar>snd (shape_firstPoint g) - snd (shape_firstPoint f)\<bar> \<le> tolerance)"

text \<open>Layer names without a clash, and a draw in which every name is the same.\<close>

fun names_apart :: "nat \<Rightarrow> string" where
  "names_apart 0 = ''STREAMS''"
| "names_apart (Suc k) = ''SITE001''"

definition names_same :: "nat \<Rightarrow> string" where
  "names_same k = ''STREAMS''"

definition stream_table :: "segment list \<Rightarrow> stream_fc" where
  "stream_table rows =
     \<lparr>field_names = [''OBJECTID'', ''Shape'', ''StrahlerOr'', ''FROM_NODE'', ''TO_NODE'',
                      ''Shape_Length''],
      fc_rows = rows\<rparr>"

text \<open>The layers as Main has them when it calls FindDownstreamPoint for one site.\<close>

definition layers_for :: "segment list \<Rightarrow> site \<Rightarrow> layers" where
  "layers_for rows t =
     [''STREAMS'' \<mapsto> fresh_layer (map Stream rows), ''SITE001'' \<mapsto> fresh_layer [Site t]]"

text \<open>The fork with its rows in another order.\<close>

definition fork_reordered :: "segment list" where
  "fork_reordered = [seg 1 1 1 2 10 (0, 0), seg 3 2 2 4 5 (10, 0), seg 2 1 2 3 20 (10, 0)]"

definition site_C :: site where
  "site_C = \<lparr>site_OID = 4, Sites = ''Site C'', site_point = (10, 0)\<rparr>"

text \<open>An insert cursor that raises when the geometry it is given is the value False.\<close>

definition insert_raises :: "out_row list \<Rightarrow> string \<Rightarrow> exn + out_row list" where
  "insert_raises out point_name = Inl TypeError"

fun names_other :: "nat \<Rightarrow> string" where
  "names_other 0 = ''NETWORK''"
| "names_other (Suc k) = ''POINT01''"

text \<open>An insert cursor that drops a row whose geometry is the value False.\<close>

definition insert_drops :: "out_row list \<Rightarrow> string \<Rightarrow> exn + out_row list" where
  "insert_drops out point_name = Inr out"


text \<open>Two layer namespaces show the same stream network under their stream layer names.\<close>

definition same_streams :: "segment list \<Rightarrow> string \<Rightarrow> string \<Rightarrow> layers \<Rightarrow> layers \<Rightarrow> bool" where
  "same_streams rows strA strB la lb =
     (\<exists>UA UB. la strA = Some UA \<and> lb strB = Some UB \<and>
        features UA = map Stream rows \<and> features UB = map Stream rows)"

section \<open>What the cursor loops and the queries compute\<close>

lemma foldl_Some_last: "foldl (\<lambda>acc row. Some (f row)) a xs = (if xs = [] then a else Some (f (last xs)))"
  by (induction xs arbitrary: a) auto

lemma DictionaryOfLayerFeatures_last:
  "DictionaryOfLayerFeatures l = (if selected l = [] then None else Some (last (selected l)))"
proof -
  have "foldl (\<lambda>dictionary row. Some row) a xs = (if xs = [] then a else Some (last xs))"
    for a :: "feature option" and xs
    by (induction xs arbitrary: a) auto
  then show ?thesis
    unfolding DictionaryOfLayerFeatures_def by simp
qed

lemma endpoint_last:
  "endpoint l = (if selected l = [] then Inl UnboundLocalError else Inr (shape_firstPoint (last (selected l))))"
  unfolding endpoint_def by (simp add: foldl_Some_last)

lemma filter_FROM_NODE_is:
  "filter (FROM_NODE_is n) (map Stream rows) = map Stream (filter (\<lambda>r. FROM_NODE r = n) rows)"
  by (induction rows) auto

lemma filter_OBJECTID_is:
  "filter (OBJECTID_is i) (map Stream rows) = map Stream (filter (\<lambda>r. OBJECTID r = i) rows)"
  by (induction rows) auto

lemma successor_lookup:
  assumes "features lyr = map Stream rows"
  shows "getitem (DictionaryOfLayerFeatures
           (SelectLayerByAttribute lyr (FROM_NODE_is (TO_NODE s)))) (\<lambda>d. d)
         = (case downstream_of rows s of None \<Rightarrow> Inl KeyError | Some d \<Rightarrow> Inr d)"
  using assms
  by (auto simp: DictionaryOfLayerFeatures_last SelectLayerByAttribute_def filter_FROM_NODE_is
      downstream_of_def last_map split: list.splits)

lemma swim_body_rows:
  assumes "features lyr = map Stream rows"
  shows "swim_body lyr st =
     (case downstream_of rows (start st) of
        None \<Rightarrow> Inl KeyError
      | Some d \<Rightarrow>
          if StrahlerOr d = StrOr_initial st then
            Inr (Inr (st\<lparr>StrOr_current := StrahlerOr d,
                           downstream_segments := downstream_segments st @ [OBJECTID d],
                           downstream_length := downstream_length st + Shape_Length d,
                           start := d\<rparr>),
                 SelectLayerByAttribute lyr (FROM_NODE_is (TO_NODE (start st))))
          else if StrahlerOr d > StrOr_initial st then
            (case downstream_segments st of
               [] \<Rightarrow> Inl IndexError
             | _ \<Rightarrow> Inr (Inr (st\<lparr>StrOr_current := StrahlerOr d\<rparr>),
                        SelectLayerByAttribute lyr (OBJECTID_is (last (downstream_segments st)))))
          else Inr (Inl OrderInversion, SelectLayerByAttribute lyr (FROM_NODE_is (TO_NODE (start st)))))"
  unfolding swim_body_def Let_def successor_lookup [OF assms]
  by (simp add: SelectLayerByAttribute_def split: option.splits list.splits)

lemma downstream_of_in_rows: "downstream_of rows s = Some d \<Longrightarrow> d \<in> set rows"
proof -
  assume a: "downstream_of rows s = Some d"
  let ?m = "filter (\<lambda>r. FROM_NODE r = TO_NODE s) rows"
  from a have "?m \<noteq> []" and "d = last ?m"
    by (auto simp: downstream_of_def split: list.splits)
  then have "d \<in> set ?m"
    using last_in_set by blast
  then show ?thesis by simp
qed

lemma chain_in_rows: "chain rows s ds \<Longrightarrow> set ds \<subseteq> set rows"
  by (induction ds arbitrary: s) (auto dest: downstream_of_in_rows)

lemma features_SelectLayerByAttribute [simp]:
  "features (SelectLayerByAttribute l q) = features l"
  by (simp add: SelectLayerByAttribute_def)

lemma swim_chain:
  assumes "features lyr = map Stream rows"
    and "StrOr_current st = StrOr_initial st"
    and "downstream_segments st \<noteq> []"
    and "chain rows (start st) (ds @ [b])"
    and "\<forall>d\<in>set ds. StrahlerOr d = StrOr_initial st"
    and "StrOr_initial st < StrahlerOr b"
  shows "swim lyr st =
     Some (Inr (Inr (st\<lparr>StrOr_current := StrahlerOr b,
                         downstream_segments := downstream_segments st @ map OBJECTID ds,
                         downstream_length := downstream_length st + sum_list (map Shape_Length ds),
                         start := last (start st # ds)\<rparr>),
                lyr\<lparr>selected :=
                  filter (OBJECTID_is (last (downstream_segments st @ map OBJECTID ds)))
                    (features lyr)\<rparr>))"
  using assms
proof (induction ds arbitrary: lyr st)
  case Nil
  then have d: "downstream_of rows (start st) = Some b"
    by simp
  let ?st' = "st\<lparr>StrOr_current := StrahlerOr b\<rparr>"
  let ?lyr' = "SelectLayerByAttribute lyr (OBJECTID_is (last (downstream_segments st)))"
  have body: "swim_body lyr st = Inr (Inr ?st', ?lyr')"
    using Nil.prems(3,6) d by (simp add: swim_body_rows [OF Nil.prems(1)] split: list.splits)
  have "swim lyr st = swim ?lyr' ?st'"
    using Nil.prems(2) body by (subst swim.simps) simp
  also have "\<dots> = Some (Inr (Inr ?st', ?lyr'))"
    using Nil.prems(6) by (subst swim.simps) simp
  finally show ?case
    by (simp add: SelectLayerByAttribute_def)
next
  case (Cons d ds)
  then have d: "downstream_of rows (start st) = Some d" and ord: "StrahlerOr d = StrOr_initial st"
    by simp_all
  let ?st' = "st\<lparr>StrOr_current := StrahlerOr d,
                 downstream_segments := downstream_segments st @ [OBJECTID d],
                 downstream_length := downstream_length st + Shape_Length d,
                 start := d\<rparr>"
  let ?lyr' = "SelectLayerByAttribute lyr (FROM_NODE_is (TO_NODE (start st)))"
  have body: "swim_body lyr st = Inr (Inr ?st', ?lyr')"
    using d ord by (simp add: swim_body_rows [OF Cons.prems(1)])
  have step: "swim lyr st = swim ?lyr' ?st'"
    using Cons.prems(2) body by (subst swim.simps) simp
  have "swim ?lyr' ?st' =
     Some (Inr (Inr (?st'\<lparr>StrOr_current := StrahlerOr b,
                         downstream_segments := downstream_segments ?st' @ map OBJECTID ds,
                         downstream_length := downstream_length ?st' + sum_list (map Shape_Length ds),
                         start := last (start ?st' # ds)\<rparr>),
                ?lyr'\<lparr>selected :=
                  filter (OBJECTID_is (last (downstream_segments ?st' @ map OBJECTID ds)))
                    (features ?lyr')\<rparr>))"
    using Cons.prems ord by (intro Cons.IH) simp_all
  then show ?case
    unfolding step by (simp add: SelectLayerByAttribute_def add.assoc)
qed

lemma filter_distinct_id:
  "distinct (map OBJECTID rows) \<Longrightarrow> x \<in> set rows \<Longrightarrow> filter (\<lambda>r. OBJECTID r = OBJECTID x) rows = [x]"
proof (induction rows)
  case Nil
  then show ?case by simp
next
  case (Cons r rows)
  show ?case
  proof (cases "x = r")
    case True
    have "OBJECTID y \<noteq> OBJECTID x" if "y \<in> set rows" for y
      using Cons.prems(1) True that by (metis distinct.simps(2) image_eqI list.simps(9) set_map)
    then have "filter (\<lambda>r. OBJECTID r = OBJECTID x) rows = []"
      by (simp add: filter_empty_conv)
    with True show ?thesis by simp
  next
    case False
    with Cons.prems have "x \<in> set rows" by simp
    moreover from this Cons.prems(1) have "OBJECTID r \<noteq> OBJECTID x" by auto
    ultimately show ?thesis using Cons by simp
  qed
qed

lemma FindDownstreamPoint_resolved:
  assumes "lyrs site_lyr = Some S" and "lyrs stream_lyr = Some T"
    and "stream_lyr \<noteq> ''start''"
    and "filter (\<lambda>f. list_ex (\<lambda>g. intersects tolerance g f) (selected S)) (features T) = [Stream s]"
  shows "FindDownstreamPoint intersects lyrs site_lyr stream_lyr tolerance =
     (case swim (T\<lparr>selected := [Stream s]\<rparr>) (initial_state s) of
        None \<Rightarrow> None
      | Some (Inl e) \<Rightarrow> Some (Inl e)
      | Some (Inr (Inl f, lyr')) \<Rightarrow>
          Some (Inr (Inl f, lyrs(stream_lyr \<mapsto> lyr', ''start'' \<mapsto> fresh_layer [Stream s])))
      | Some (Inr (Inr st, lyr')) \<Rightarrow>
          (case endpoint lyr' of
             Inl e \<Rightarrow> Some (Inl e)
           | Inr xy \<Rightarrow>
               Some (Inr (Inr xy, lyrs(stream_lyr \<mapsto> lyr', ''start'' \<mapsto> fresh_layer [Stream s])))))"
  using assms
  by (auto simp: FindDownstreamPoint_def SelectLayerByLocation_def GetCount_def
      MakeFeatureLayer_def DictionaryOfLayerFeatures_last fresh_layer_def fun_upd_twist
      split: option.splits sum.splits prod.splits)

lemma FindDownstreamPoint_unresolved:
  assumes "lyrs site_lyr = Some S" and "lyrs stream_lyr = Some T"
    and "length (filter (\<lambda>f. list_ex (\<lambda>g. intersects tolerance g f) (selected S)) (features T)) \<noteq> 1"
  shows "FindDownstreamPoint intersects lyrs site_lyr stream_lyr tolerance =
     Some (Inr (Inl AmbiguousOrMissingSegment,
       lyrs(stream_lyr \<mapsto> T\<lparr>selected :=
          filter (\<lambda>f. list_ex (\<lambda>g. intersects tolerance g f) (selected S)) (features T)\<rparr>)))"
  using assms
  by (auto simp: FindDownstreamPoint_def SelectLayerByLocation_def GetCount_def)

lemma backtrack_endpoint:
  assumes "distinct (map OBJECTID rows)" and "x \<in> set rows"
  shows "endpoint (lyr\<lparr>selected := filter (OBJECTID_is (OBJECTID x)) (map Stream rows)\<rparr>)
         = Inr (firstPoint x)"
  by (simp add: endpoint_last filter_OBJECTID_is filter_distinct_id [OF assms])

section \<open>When the search ends\<close>

lemma swim_ends:
  assumes "features lyr = map Stream rows"
    and "StrOr_current st = StrOr_initial st"
    and "StrahlerOr (start st) = StrOr_initial st"
    and "leaves_order rows (start st) (StrOr_initial st) n"
  shows "swim lyr st \<noteq> None"
  using assms
proof (induction n arbitrary: lyr st)
  case 0
  then show ?case by (simp add: leaves_order_def)
next
  case (Suc n)
  note body = swim_body_rows [OF Suc.prems(1), of st]
  show ?case
  proof (cases "downstream_of rows (start st)")
    case None
    then show ?thesis
      using Suc.prems(2) body by (subst swim.simps) simp
  next
    case (Some d)
    consider (same) "StrahlerOr d = StrOr_initial st" | (higher) "StrOr_initial st < StrahlerOr d"
      | (lower) "StrahlerOr d < StrOr_initial st"
      by linarith
    then show ?thesis
    proof cases
      case same
      let ?st' = "st\<lparr>StrOr_current := StrahlerOr d,
                 downstream_segments := downstream_segments st @ [OBJECTID d],
                 downstream_length := downstream_length st + Shape_Length d,
                 start := d\<rparr>"
      let ?lyr' = "SelectLayerByAttribute lyr (FROM_NODE_is (TO_NODE (start st)))"
      have "swim lyr st = swim ?lyr' ?st'"
        using Suc.prems(2) body Some same by (subst swim.simps) simp
      moreover have "swim ?lyr' ?st' \<noteq> None"
        using Suc.prems Some same by (intro Suc.IH) (simp_all add: leaves_order_def)
      ultimately show ?thesis by simp
    next
      case higher
      show ?thesis
      proof (cases "downstream_segments st")
        case Nil
        then show ?thesis
          using Suc.prems(2) body Some higher by (subst swim.simps) simp
      next
        case (Cons i rest)
        let ?st' = "st\<lparr>StrOr_current := StrahlerOr d\<rparr>"
        let ?lyr' = "SelectLayerByAttribute lyr (OBJECTID_is (last (downstream_segments st)))"
        have "swim lyr st = swim ?lyr' ?st'"
          using Suc.prems(2) body Some higher Cons by (subst swim.simps) simp
        also have "\<dots> = Some (Inr (Inr ?st', ?lyr'))"
          using higher by (subst swim.simps) simp
        finally show ?thesis by simp
      qed
    next
      case lower
      then show ?thesis
        using Suc.prems(2) body Some by (subst swim.simps) simp
    qed
  qed
qed

lemma swim_ended:
  assumes "swim lyr st = Some r"
  shows "features lyr = map Stream rows \<longrightarrow> StrOr_current st = StrOr_initial st \<longrightarrow>
         (\<exists>n. leaves_order rows (start st) (StrOr_initial st) n)"
proof (rule swim.raw_induct [OF _ assms], goal_cases)
  case (1 swim' lyr st r)
  show ?case
  proof (intro impI)
    assume f: "features lyr = map Stream rows" and c: "StrOr_current st = StrOr_initial st"
    note body = swim_body_rows [OF f, of st]
    show "\<exists>n. leaves_order rows (start st) (StrOr_initial st) n"
    proof (cases "downstream_of rows (start st)")
      case None
      then have "leaves_order rows (start st) (StrOr_initial st) 1"
        by (simp add: leaves_order_def)
      then show ?thesis ..
    next
      case (Some d)
      show ?thesis
      proof (cases "StrahlerOr d = StrOr_initial st")
        case False
        with Some have "leaves_order rows (start st) (StrOr_initial st) 1"
          by (simp add: leaves_order_def)
        then show ?thesis ..
      next
        case True
        let ?st' = "st\<lparr>StrOr_current := StrahlerOr d,
                 downstream_segments := downstream_segments st @ [OBJECTID d],
                 downstream_length := downstream_length st + Shape_Length d,
                 start := d\<rparr>"
        let ?lyr' = "SelectLayerByAttribute lyr (FROM_NODE_is (TO_NODE (start st)))"
        have "swim' ?lyr' ?st' = Some r"
          using "1"(2) c body Some True by simp
        from "1"(1) [OF this] f True have "\<exists>n. leaves_order rows (start ?st') (StrOr_initial ?st') n"
          by simp
        then obtain n where "leaves_order rows d (StrOr_initial st) n"
          by auto
        with Some have "leaves_order rows (start st) (StrOr_initial st) (Suc n)"
          by (simp add: leaves_order_def)
        then show ?thesis ..
      qed
    qed
  qed
qed

lemmas example_defs = chain4_def chain23_def chain21_def fork_def fork_reordered_def cycle_def
  seg_def site_A_def site_B_def site_C_def site_far_def within_tolerance_def layers_for_def
  fresh_layer_def insert_raises_def insert_drops_def names_same_def

lemmas eval_defs = Main_def ValidateInputStreams_def req_fields_def stream_table_def
  FindDownstreamPoint_def SelectLayerByLocation_def GetCount_def MakeFeatureLayer_def
  DictionaryOfLayerFeatures_def initial_state_def swim.simps swim_body_def
  SelectLayerByAttribute_def endpoint_def insertRow_def replace_spaces_def

section \<open>Searches along a chain of one order\<close>

lemma resolved_in_rows:
  assumes "filter p (features T) = [Stream s]" and "features T = map Stream rows"
  shows "s \<in> set rows"
proof -
  have "Stream s \<in> set (filter p (features T))"
    unfolding assms(1) by simp
  then show ?thesis
    using assms(2) by auto
qed

lemma last_chain_in_rows:
  assumes "s \<in> set rows" and "chain rows s ds"
  shows "last (s # ds) \<in> set rows"
proof (cases ds rule: rev_cases)
  case Nil
  with assms(1) show ?thesis by simp
next
  case (snoc ys y)
  with chain_in_rows [OF assms(2)] show ?thesis by simp
qed

lemma chain_append: "chain rows s (ds @ es) = (chain rows s ds \<and> chain rows (last (s # ds)) es)"
  by (induction ds arbitrary: s) auto

lemma swim_initial_chain:
  assumes "features lyr = map Stream rows"
    and "chain rows s (ds @ [b])"
    and "\<forall>d\<in>set ds. StrahlerOr d = StrahlerOr s"
    and "StrahlerOr s < StrahlerOr b"
  shows "swim lyr (initial_state s) =
     Some (Inr (Inr \<lparr>start = last (s # ds), StrOr_initial = StrahlerOr s,
                     StrOr_current = StrahlerOr b,
                     downstream_segments = map OBJECTID (s # ds),
                     downstream_length = sum_list (map Shape_Length ds)\<rparr>,
                lyr\<lparr>selected :=
                  filter (OBJECTID_is (OBJECTID (last (s # ds)))) (features lyr)\<rparr>))"
proof -
  have "last (downstream_segments (initial_state s) @ map OBJECTID ds) = OBJECTID (last (s # ds))"
    by (simp add: initial_state_def last_map)
  moreover have "swim lyr (initial_state s) =
     Some (Inr (Inr ((initial_state s)\<lparr>StrOr_current := StrahlerOr b,
                         downstream_segments := downstream_segments (initial_state s) @ map OBJECTID ds,
                         downstream_length := downstream_length (initial_state s) + sum_list (map Shape_Length ds),
                         start := last (start (initial_state s) # ds)\<rparr>),
                lyr\<lparr>selected :=
                  filter (OBJECTID_is (last (downstream_segments (initial_state s) @ map OBJECTID ds)))
                    (features lyr)\<rparr>))"
    using assms by (intro swim_chain [where rows = rows]) (simp_all add: initial_state_def)
  ultimately show ?thesis
    by (simp add: initial_state_def)
qed

lemma swim_backtrack:
  assumes "features T = map Stream rows" and "distinct (map OBJECTID rows)"
    and "s \<in> set rows"
    and "chain rows s (ds @ [b])"
    and "\<forall>d\<in>set ds. StrahlerOr d = StrahlerOr s"
    and "StrahlerOr s < StrahlerOr b"
  shows "swim (T\<lparr>selected := sel\<rparr>) (initial_state s) =
     Some (Inr (Inr \<lparr>start = last (s # ds), StrOr_initial = StrahlerOr s,
                     StrOr_current = StrahlerOr b,
                     downstream_segments = map OBJECTID (s # ds),
                     downstream_length = sum_list (map Shape_Length ds)\<rparr>,
                T\<lparr>selected := [Stream (last (s # ds))]\<rparr>))"
proof -
  let ?T = "T\<lparr>selected := sel\<rparr>"
  have "chain rows s ds"
    using assms(4) by (simp add: chain_append)
  then have l: "last (s # ds) \<in> set rows"
    using assms(3) by (rule last_chain_in_rows [rotated])
  have f: "features ?T = map Stream rows"
    using assms(1) by simp
  define x where "x = last (s # ds)"
  have "filter (OBJECTID_is (OBJECTID x)) (features ?T) = [Stream x]"
    using l by (simp add: f filter_OBJECTID_is filter_distinct_id [OF assms(2)] x_def del: last.simps)
  then show ?thesis
    unfolding swim_initial_chain [OF f assms(4,5,6)] by (simp add: x_def del: last.simps)
qed

lemma FindDownstreamPoint_chain:
  assumes "lyrs site_lyr = Some S" and "lyrs stream_lyr = Some T"
    and "stream_lyr \<noteq> ''start''"
    and "features T = map Stream rows" and "distinct (map OBJECTID rows)"
    and "filter (\<lambda>f. list_ex (\<lambda>g. intersects tolerance g f) (selected S)) (features T) = [Stream s]"
    and "chain rows s (ds @ [b])"
    and "\<forall>d\<in>set ds. StrahlerOr d = StrahlerOr s"
    and "StrahlerOr s < StrahlerOr b"
  shows "FindDownstreamPoint intersects lyrs site_lyr stream_lyr tolerance =
           Some (Inr (Inr (firstPoint (last (s # ds))),
             lyrs(stream_lyr \<mapsto> T\<lparr>selected := [Stream (last (s # ds))]\<rparr>,
                  ''start'' \<mapsto> fresh_layer [Stream s])))"
proof -
  have s: "s \<in> set rows"
    using resolved_in_rows [OF assms(6,4)] .
  define x where "x = last (s # ds)"
  have sw: "swim (T\<lparr>selected := [Stream s]\<rparr>) (initial_state s) =
     Some (Inr (Inr \<lparr>start = x, StrOr_initial = StrahlerOr s, StrOr_current = StrahlerOr b,
                     downstream_segments = map OBJECTID (s # ds),
                     downstream_length = sum_list (map Shape_Length ds)\<rparr>,
                T\<lparr>selected := [Stream x]\<rparr>))"
    unfolding x_def by (rule swim_backtrack [OF assms(4,5) s assms(7,8,9)])
  have ep: "endpoint (T\<lparr>selected := [Stream x]\<rparr>) = Inr (firstPoint x)"
    by (simp add: endpoint_last)
  have "FindDownstreamPoint intersects lyrs site_lyr stream_lyr tolerance =
           Some (Inr (Inr (firstPoint x),
             lyrs(stream_lyr \<mapsto> T\<lparr>selected := [Stream x]\<rparr>,
                  ''start'' \<mapsto> fresh_layer [Stream s])))"
    unfolding FindDownstreamPoint_resolved
        [where intersects = intersects and tolerance = tolerance, OF assms(1,2,3,6)] sw
    by (simp add: ep)
  then show ?thesis
    by (simp only: x_def)
qed




section \<open>The pour point\<close>

text \<open>
  C1. When the search ends because the next segment downstream has a strictly higher
  Strahler order, the coordinate FindDownstreamPoint returns is the first point of the
  last segment of the initial order that was visited: the loop's final \<open>start\<close>, whose
  id is the last element of the visited sequence and which the backtracking query
  selects again. Here \<open>s\<close> is the segment the site resolves to, \<open>ds\<close> the segments of
  the same order visited after it and \<open>b\<close> the segment of higher order. Object ids are
  unique in the stream table.
\<close>

theorem pour_point_is_start_of_last_same_order_segment:
  assumes "lyrs site_lyr = Some S" and "lyrs stream_lyr = Some T"
    and "stream_lyr \<noteq> ''start''"
    and "features T = map Stream rows" and "distinct (map OBJECTID rows)"
    and "filter (\<lambda>f. list_ex (\<lambda>g. intersects tolerance g f) (selected S)) (features T) = [Stream s]"
    and "chain rows s (ds @ [b])"
    and "\<forall>d\<in>set ds. StrahlerOr d = StrahlerOr s"
    and "StrahlerOr s < StrahlerOr b"
  shows "\<exists>st lyr'.
           swim (T\<lparr>selected := [Stream s]\<rparr>) (initial_state s) = Some (Inr (Inr st, lyr')) \<and>
           start st = last (s # ds) \<and>
           OBJECTID (start st) = last (downstream_segments st) \<and>
           selected lyr' = [Stream (start st)] \<and>
           FindDownstreamPoint intersects lyrs site_lyr stream_lyr tolerance =
             Some (Inr (Inr (firstPoint (start st)),
               lyrs(stream_lyr \<mapsto> lyr', ''start'' \<mapsto> fresh_layer [Stream s])))"
proof -
  have s: "s \<in> set rows"
    using resolved_in_rows [OF assms(6,4)] .
  show ?thesis
    unfolding swim_backtrack [OF assms(4,5) s assms(7,8,9)]
      FindDownstreamPoint_chain
        [where intersects = intersects and tolerance = tolerance, OF assms]
    using last_map [of "s # ds" OBJECTID] by (simp del: last.simps)
qed

text \<open>On the chain of orders 2, 2, 2, 3 the point is (30, 0), the first point of the
  third segment; the segment of order 3 starts at (60, 0).\<close>

theorem pour_point_is_start_of_last_same_order_segment_witness:
  "map_option (map_sum id fst)
     (FindDownstreamPoint within_tolerance (layers_for chain4 site_A) ''SITE001'' ''STREAMS'' 1)
   = Some (Inr (Inr (30, 0)))"
proof -
  let ?s = "seg 1 2 1 2 10 (0, 0)"
  let ?ds = "[seg 2 2 2 3 20 (10, 0), seg 3 2 3 4 30 (30, 0)]"
  have "\<exists>st lyr'.
      swim ((fresh_layer (map Stream chain4))\<lparr>selected := [Stream ?s]\<rparr>) (initial_state ?s)
        = Some (Inr (Inr st, lyr')) \<and>
      start st = last (?s # ?ds) \<and>
      OBJECTID (start st) = last (downstream_segments st) \<and>
      selected lyr' = [Stream (start st)] \<and>
      FindDownstreamPoint within_tolerance (layers_for chain4 site_A) ''SITE001'' ''STREAMS'' 1 =
        Some (Inr (Inr (firstPoint (start st)),
          (layers_for chain4 site_A)(''STREAMS'' \<mapsto> lyr', ''start'' \<mapsto> fresh_layer [Stream ?s])))"
    by (rule pour_point_is_start_of_last_same_order_segment
        [where S = "fresh_layer [Site site_A]" and rows = chain4
           and b = "seg 4 3 4 5 5 (60, 0)"])
      (simp_all add: example_defs downstream_of_def)
  then show ?thesis
    by (auto simp: seg_def)
qed

text \<open>
  C2. Over a chain of segments of one order that ends in a segment of strictly higher
  order, the cumulative length is the sum of the lengths of the segments visited after
  the starting one: the starting segment adds nothing and the segment of higher order is
  not counted. With unique object ids the cursor then reads the first point of the last
  segment visited.
\<close>

theorem cumulative_length_excludes_start_and_boundary:
  assumes "features lyr = map Stream rows"
    and "chain rows s (ds @ [b])"
    and "\<forall>d\<in>set ds. StrahlerOr d = StrahlerOr s"
    and "StrahlerOr s < StrahlerOr b"
  shows "\<exists>st lyr'. swim lyr (initial_state s) = Some (Inr (Inr st, lyr')) \<and>
           downstream_segments st = map OBJECTID (s # ds) \<and>
           downstream_length st = sum_list (map Shape_Length ds) \<and>
           (distinct (map OBJECTID rows) \<and> s \<in> set rows \<longrightarrow>
              endpoint lyr' = Inr (firstPoint (last (s # ds))))"
proof -
  have "chain rows s ds"
    using assms(2) by (simp add: chain_append)
  then have "endpoint (lyr\<lparr>selected := filter (OBJECTID_is (OBJECTID (last (s # ds)))) (features lyr)\<rparr>)
             = Inr (firstPoint (last (s # ds)))"
    if "distinct (map OBJECTID rows)" and "s \<in> set rows"
    using that assms(1) backtrack_endpoint [OF that(1) last_chain_in_rows, of s ds lyr] by simp
  then show ?thesis
    unfolding swim_initial_chain [OF assms] by simp
qed

text \<open>The chain of orders 2, 2, 2, 3 and lengths 10, 20, 30, 5: the length is 50 and
  the point is the first point of the third segment.\<close>

theorem cumulative_length_excludes_start_and_boundary_witness:
  "\<exists>st lyr'. swim (fresh_layer (map Stream chain4)) (initial_state (seg 1 2 1 2 10 (0, 0)))
                = Some (Inr (Inr st, lyr')) \<and>
     downstream_segments st = [1, 2, 3] \<and> downstream_length st = 50 \<and>
     endpoint lyr' = Inr (30, 0)"
  using cumulative_length_excludes_start_and_boundary
    [of "fresh_layer (map Stream chain4)" chain4 "seg 1 2 1 2 10 (0, 0)"
        "[seg 2 2 2 3 20 (10, 0), seg 3 2 3 4 30 (30, 0)]" "seg 4 3 4 5 5 (60, 0)"]
  by (simp add: example_defs downstream_of_def)

text \<open>
  C8. When the first successor of the starting segment already has a strictly higher
  order, the search ends without a continuing hop: the cumulative length is 0, the
  visited sequence holds the starting segment alone, and the coordinate returned is the
  first point of the starting segment.
\<close>

theorem boundary_at_first_hop:
  assumes "lyrs site_lyr = Some S" and "lyrs stream_lyr = Some T"
    and "stream_lyr \<noteq> ''start''"
    and "features T = map Stream rows" and "distinct (map OBJECTID rows)"
    and "filter (\<lambda>f. list_ex (\<lambda>g. intersects tolerance g f) (selected S)) (features T) = [Stream s]"
    and "downstream_of rows s = Some b"
    and "StrahlerOr s < StrahlerOr b"
  shows "(\<exists>lyrs'. FindDownstreamPoint intersects lyrs site_lyr stream_lyr tolerance =
            Some (Inr (Inr (firstPoint s), lyrs'))) \<and>
         (\<exists>st lyr'. swim (T\<lparr>selected := [Stream s]\<rparr>) (initial_state s) = Some (Inr (Inr st, lyr')) \<and>
            downstream_length st = 0 \<and> downstream_segments st = [OBJECTID s] \<and> start st = s)"
proof -
  have c: "chain rows s ([] @ [b])"
    using assms(7) by simp
  have f: "features (T\<lparr>selected := [Stream s]\<rparr>) = map Stream rows"
    using assms(4) by simp
  show ?thesis
    using FindDownstreamPoint_chain
      [where intersects = intersects and tolerance = tolerance, OF assms(1-6) c _ assms(8)]
      swim_initial_chain [OF f c _ assms(8)]
    by simp
qed

theorem boundary_at_first_hop_witness:
  "(\<exists>lyrs'. FindDownstreamPoint within_tolerance (layers_for chain23 site_A)
               ''SITE001'' ''STREAMS'' 1 = Some (Inr (Inr (0, 0), lyrs'))) \<and>
   (\<exists>st lyr'. swim ((fresh_layer (map Stream chain23))\<lparr>selected := [Stream (seg 1 2 1 2 10 (0, 0))]\<rparr>)
                 (initial_state (seg 1 2 1 2 10 (0, 0))) = Some (Inr (Inr st, lyr')) \<and>
      downstream_length st = 0 \<and> downstream_segments st = [1] \<and>
      start st = seg 1 2 1 2 10 (0, 0))"
  using boundary_at_first_hop
    [of "layers_for chain23 site_A" "''SITE001''" "fresh_layer [Site site_A]" "''STREAMS''"
        "fresh_layer (map Stream chain23)" chain23 within_tolerance 1
        "seg 1 2 1 2 10 (0, 0)" "seg 2 3 2 3 5 (10, 0)"]
  by (simp add: example_defs downstream_of_def)

section \<open>Where the search ends\<close>

text \<open>
  C9, as the program has it. The loop has no bound on its passes. Started on a segment
  \<open>s\<close>, it ends exactly when, after finitely many hops, the chain from \<open>s\<close> reaches
  a segment of another order or a segment that no segment follows; there the empty
  dictionary raises KeyError. Where every successor exists and has the initial order the
  search never ends.
\<close>

theorem search_ends_iff_chain_leaves_order:
  assumes "features lyr = map Stream rows"
  shows "(swim lyr (initial_state s) \<noteq> None) = (\<exists>n. leaves_order rows s (StrahlerOr s) n)"
proof
  assume "swim lyr (initial_state s) \<noteq> None"
  then obtain r where "swim lyr (initial_state s) = Some r"
    by blast
  from swim_ended [OF this, of rows] assms
  show "\<exists>n. leaves_order rows s (StrahlerOr s) n"
    by (simp add: initial_state_def)
next
  assume "\<exists>n. leaves_order rows s (StrahlerOr s) n"
  then obtain n where "leaves_order rows s (StrahlerOr s) n" ..
  then show "swim lyr (initial_state s) \<noteq> None"
    using assms by (intro swim_ends [where rows = rows and n = n]) (simp_all add: initial_state_def)
qed

lemma hops_cycle:
  "hops cycle (seg 1 2 1 2 10 (0, 0)) n \<in> {Some (seg 1 2 1 2 10 (0, 0)), Some (seg 2 2 2 1 10 (10, 0))} \<and>
   hops cycle (seg 2 2 2 1 10 (10, 0)) n \<in> {Some (seg 1 2 1 2 10 (0, 0)), Some (seg 2 2 2 1 10 (10, 0))}"
proof (induction n)
  case 0
  show ?case by simp
next
  case (Suc n)
  have "downstream_of cycle (seg 1 2 1 2 10 (0, 0)) = Some (seg 2 2 2 1 10 (10, 0))"
    and "downstream_of cycle (seg 2 2 2 1 10 (10, 0)) = Some (seg 1 2 1 2 10 (0, 0))"
    by (simp_all add: downstream_of_def cycle_def seg_def)
  with Suc show ?case by simp
qed

text \<open>The search never ends on the cycle, and it ends on the chain of orders
  2, 2, 2, 3.\<close>

theorem search_ends_iff_chain_leaves_order_witness:
  "swim (fresh_layer (map Stream cycle)) (initial_state (seg 1 2 1 2 10 (0, 0))) = None \<and>
   swim (fresh_layer (map Stream chain4)) (initial_state (seg 1 2 1 2 10 (0, 0))) \<noteq> None"
proof
  have "\<not> leaves_order cycle (seg 1 2 1 2 10 (0, 0)) 2 n" for n
    using hops_cycle [of n] by (auto simp: leaves_order_def seg_def)
  then show "swim (fresh_layer (map Stream cycle)) (initial_state (seg 1 2 1 2 10 (0, 0))) = None"
    using search_ends_iff_chain_leaves_order
      [of "fresh_layer (map Stream cycle)" cycle "seg 1 2 1 2 10 (0, 0)"]
    by (simp add: fresh_layer_def seg_def)
next
  have "leaves_order chain4 (seg 1 2 1 2 10 (0, 0)) 2 3"
    by (simp add: leaves_order_def numeral_3_eq_3 downstream_of_def chain4_def seg_def)
  then show "swim (fresh_layer (map Stream chain4)) (initial_state (seg 1 2 1 2 10 (0, 0))) \<noteq> None"
    using search_ends_iff_chain_leaves_order
      [of "fresh_layer (map Stream chain4)" chain4 "seg 1 2 1 2 10 (0, 0)"]
    by (auto simp: fresh_layer_def seg_def)
qed

text \<open>
  C9 as it is stated fails: from the segment with id 9 no segment of another order is
  ever reached, and yet the search ends, at the first lookup, with KeyError.
\<close>

theorem search_stops_at_network_end_counterexample:
  "swim (fresh_layer (map Stream chain23)) (initial_state (seg 9 1 8 9 7 (100, 100)))
     = Some (Inl KeyError) \<and>
   \<not> (\<exists>n d. hops chain23 (seg 9 1 8 9 7 (100, 100)) n = Some d \<and>
              StrahlerOr d \<noteq> StrahlerOr (seg 9 1 8 9 7 (100, 100)))"
proof
  show "swim (fresh_layer (map Stream chain23)) (initial_state (seg 9 1 8 9 7 (100, 100)))
     = Some (Inl KeyError)"
    by (simp add: swim.simps swim_body_def initial_state_def SelectLayerByAttribute_def
        DictionaryOfLayerFeatures_def example_defs)
next
  have "hops chain23 (seg 9 1 8 9 7 (100, 100)) n = Some d \<Longrightarrow> d = seg 9 1 8 9 7 (100, 100)" for n d
    by (cases n) (simp_all add: downstream_of_def chain23_def seg_def)
  then show "\<not> (\<exists>n d. hops chain23 (seg 9 1 8 9 7 (100, 100)) n = Some d \<and>
              StrahlerOr d \<noteq> StrahlerOr (seg 9 1 8 9 7 (100, 100)))"
    by blast
qed

section \<open>More than one successor\<close>

text \<open>
  C5. Two segments leave the node that the starting segment of the fork flows to. The
  search neither fails nor reports it: the dictionary keeps the last of the two rows,
  and a coordinate comes back as if there were no choice. With the same rows in another
  order the other segment is taken and the search ends differently. (A lookup with no
  match does end the search: reading the order from the empty dictionary raises
  KeyError.)
\<close>

theorem ambiguous_successor_silently_resolved:
  "length (filter (\<lambda>r. FROM_NODE r = TO_NODE (seg 1 1 1 2 10 (0, 0))) fork) = 2 \<and>
   map_option (map_sum id fst)
     (FindDownstreamPoint within_tolerance (layers_for fork site_A) ''SITE001'' ''STREAMS'' 1)
     = Some (Inr (Inr (0, 0))) \<and>
   set fork_reordered = set fork \<and>
   map_option (map_sum id fst)
     (FindDownstreamPoint within_tolerance (layers_for fork_reordered site_A) ''SITE001'' ''STREAMS'' 1)
     = Some (Inl KeyError) \<and>
   filter (\<lambda>r. FROM_NODE r = TO_NODE (seg 9 1 8 9 7 (100, 100))) chain23 = [] \<and>
   map_option (map_sum id fst)
     (FindDownstreamPoint within_tolerance (layers_for chain23 site_B) ''SITE001'' ''STREAMS'' 1)
     = Some (Inl KeyError)"
  by (simp add: eval_defs example_defs insert_commute)

section \<open>The run\<close>

lemma for_sites_Cons_one:
  assumes "filter (\<lambda>t. site_OID t = s) sites = [t]"
  shows "for_sites intersects on_False rnd sites stream_lyr tolerance k (s # site_list) lyrs out =
     (case FindDownstreamPoint intersects (lyrs(rnd (Suc k) \<mapsto> fresh_layer [Site t]))
             (rnd (Suc k)) stream_lyr tolerance of
        None \<Rightarrow> None
      | Some (Inl e) \<Rightarrow> Some \<lparr>outcome = Raised e, output_rows = Some out\<rparr>
      | Some (Inr (xy, lyrs2)) \<Rightarrow>
          (case insertRow on_False out xy (replace_spaces (Sites t)) of
             Inl e \<Rightarrow> Some \<lparr>outcome = Raised e, output_rows = Some out\<rparr>
           | Inr out' \<Rightarrow>
               for_sites intersects on_False rnd sites stream_lyr tolerance
                 (Suc k) site_list (lyrs2(rnd (Suc k) := None)) out'))"
  by (subst for_sites.simps) (simp add: assms Let_def)

lemma for_sites_Cons_other:
  assumes "length (filter (\<lambda>t. site_OID t = s) sites) \<noteq> 1"
  shows "for_sites intersects on_False rnd sites stream_lyr tolerance k (s # site_list) lyrs out =
     (if filter (\<lambda>t. site_OID t = s) sites = []
      then Some \<lparr>outcome = Raised IndexError, output_rows = Some out\<rparr>
      else Some \<lparr>outcome = ReturnedFalse SiteSelectionFailed, output_rows = Some out\<rparr>)"
proof (cases "filter (\<lambda>t. site_OID t = s) sites")
  case Nil
  then show ?thesis
    by (subst for_sites.simps) (simp add: Let_def)
next
  case (Cons t ts)
  with assms have "ts \<noteq> []"
    by auto
  with Cons show ?thesis
    by (subst for_sites.simps) (simp add: Let_def)
qed


lemma for_sites_output:
  "for_sites intersects on_False rnd sites stream_lyr tolerance k site_list lyrs out = Some r \<Longrightarrow>
     (\<exists>out'. output_rows r = Some out') \<and> outcome r \<noteq> ReturnedFalse IncompatibleSchema"
proof (induction site_list arbitrary: k lyrs out)
  case Nil
  then show ?case by auto
next
  case (Cons s site_list)
  then show ?case
    by (auto simp: Let_def split: list.splits if_splits option.splits sum.splits prod.splits)
qed

text \<open>
  C7. If one of the fields OBJECTID, StrahlerOr, FROM_NODE, TO_NODE is missing from the
  stream table, validation fails and Main returns False whatever the sites are, with no
  output feature class created. If all four are there, validation passes, the loop over
  the sites starts with the output feature class created and empty, and every run that
  ends leaves an output feature class.
\<close>

theorem schema_validation_gates_the_run:
  "(\<not> set [''OBJECTID'', ''StrahlerOr'', ''FROM_NODE'', ''TO_NODE''] \<subseteq> set (field_names streams) \<longrightarrow>
      \<not> ValidateInputStreams streams \<and>
      Main intersects on_False rnd sites streams tolerance =
        Some \<lparr>outcome = ReturnedFalse IncompatibleSchema, output_rows = None\<rparr>) \<and>
   (set [''OBJECTID'', ''StrahlerOr'', ''FROM_NODE'', ''TO_NODE''] \<subseteq> set (field_names streams) \<longrightarrow>
      ValidateInputStreams streams \<and>
      Main intersects on_False rnd sites streams tolerance =
        for_sites intersects on_False rnd sites (rnd 0) tolerance 0 (map site_OID sites)
          [rnd 0 \<mapsto> fresh_layer (map Stream (fc_rows streams))] [] \<and>
      (\<forall>r. Main intersects on_False rnd sites streams tolerance = Some r \<longrightarrow>
         (\<exists>out. output_rows r = Some out) \<and> outcome r \<noteq> ReturnedFalse IncompatibleSchema))"
proof (intro conjI impI allI)
  assume "\<not> set [''OBJECTID'', ''StrahlerOr'', ''FROM_NODE'', ''TO_NODE''] \<subseteq> set (field_names streams)"
  then show "\<not> ValidateInputStreams streams"
    and "Main intersects on_False rnd sites streams tolerance =
        Some \<lparr>outcome = ReturnedFalse IncompatibleSchema, output_rows = None\<rparr>"
    by (auto simp: Main_def ValidateInputStreams_def req_fields_def)
next
  assume a: "set [''OBJECTID'', ''StrahlerOr'', ''FROM_NODE'', ''TO_NODE''] \<subseteq> set (field_names streams)"
  then show v: "ValidateInputStreams streams"
    by (simp add: ValidateInputStreams_def req_fields_def)
  then show m: "Main intersects on_False rnd sites streams tolerance =
        for_sites intersects on_False rnd sites (rnd 0) tolerance 0 (map site_OID sites)
          [rnd 0 \<mapsto> fresh_layer (map Stream (fc_rows streams))] []"
    by (simp add: Main_def Let_def)
  fix r
  assume "Main intersects on_False rnd sites streams tolerance = Some r"
  then have "for_sites intersects on_False rnd sites (rnd 0) tolerance 0 (map site_OID sites)
          [rnd 0 \<mapsto> fresh_layer (map Stream (fc_rows streams))] [] = Some r"
    unfolding m .
  from for_sites_output [OF this]
  show "\<exists>out. output_rows r = Some out"
    and "outcome r \<noteq> ReturnedFalse IncompatibleSchema"
    by simp_all
qed

theorem schema_validation_gates_the_run_witness:
  "Main within_tolerance insert_raises names_apart [site_A]
     \<lparr>field_names = [''OBJECTID'', ''Shape'', ''StrahlerOr''], fc_rows = chain23\<rparr> 1
     = Some \<lparr>outcome = ReturnedFalse IncompatibleSchema, output_rows = None\<rparr> \<and>
   ValidateInputStreams (stream_table chain23) \<and>
   Main within_tolerance insert_raises names_apart [] (stream_table chain23) 1
     = Some \<lparr>outcome = ReturnedOutput, output_rows = Some []\<rparr>"
  using schema_validation_gates_the_run
    [of "\<lparr>field_names = [''OBJECTID'', ''Shape'', ''StrahlerOr''], fc_rows = chain23\<rparr>"
        within_tolerance insert_raises names_apart "[site_A]" 1]
    schema_validation_gates_the_run
    [of "stream_table chain23" within_tolerance insert_raises names_apart "[]" 1]
  by (simp add: stream_table_def)





text \<open>
  C6. Site B lies on a segment that no segment follows, site A on the chain of orders
  2, 3. The search for site B raises KeyError, nothing catches it, and the run ends
  before site A is looked at, although site A alone yields its row. A site that does
  not resolve ends the run in the same way when the insert cursor raises on the value
  False.
\<close>

theorem site_failure_ends_the_run:
  "Main within_tolerance on_False names_apart [site_B, site_A] (stream_table chain23) 1 =
     Some \<lparr>outcome = Raised KeyError, output_rows = Some []\<rparr> \<and>
   Main within_tolerance on_False names_apart [site_A] (stream_table chain23) 1 =
     Some \<lparr>outcome = ReturnedOutput, output_rows = Some [((0, 0), ''Site_A'')]\<rparr> \<and>
   Main within_tolerance insert_raises names_apart [site_far, site_A] (stream_table chain23) 1 =
     Some \<lparr>outcome = Raised TypeError, output_rows = Some []\<rparr>"
  by (simp add: eval_defs example_defs)

section \<open>The random layer names\<close>

lemma swim_body_features:
  assumes "swim_body lyr st = Inr (x, lyr')"
  shows "features lyr' = features lyr"
proof -
  let ?l1 = "SelectLayerByAttribute lyr (FROM_NODE_is (TO_NODE (start st)))"
  show ?thesis
  proof (cases "getitem (DictionaryOfLayerFeatures ?l1) (\<lambda>d. d)")
    case (Inl e)
    with assms show ?thesis
      by (simp add: swim_body_def Let_def)
  next
    case (Inr d)
    show ?thesis
    proof (cases "downstream_segments st")
      case Nil
      with assms Inr show ?thesis
        by (simp add: swim_body_def Let_def split: if_splits) auto
    next
      case (Cons i rest)
      with assms Inr show ?thesis
        by (simp add: swim_body_def Let_def split: if_splits) auto
    qed
  qed
qed

lemma swim_features:
  assumes "swim lyr st = Some r"
  shows "\<forall>x lyr'. r = Inr (x, lyr') \<longrightarrow> features lyr' = features lyr"
proof (rule swim.raw_induct
    [where P = "\<lambda>lyr st r. \<forall>x lyr'. r = Inr (x, lyr') \<longrightarrow> features lyr' = features lyr",
     OF _ assms], goal_cases)
  case (1 swim' lyr st r)
  show ?case
  proof (cases "StrOr_current st = StrOr_initial st")
    case False
    with "1"(2) have "r = Inr (Inr st, lyr)"
      by simp
    then show ?thesis
      by simp
  next
    case True
    with "1"(2) have eq: "(case swim_body lyr st of
           Inl e \<Rightarrow> Some (Inl e)
         | Inr (Inl f, lyr) \<Rightarrow> Some (Inr (Inl f, lyr))
         | Inr (Inr st', lyr) \<Rightarrow> swim' lyr st') = Some r"
      by simp
    show ?thesis
    proof (cases "swim_body lyr st")
      case (Inl e)
      with eq have "r = Inl e"
        by simp
      then show ?thesis
        by simp
    next
      case (Inr p)
      obtain y lyr1 where p: "p = (y, lyr1)"
        by (cases p)
      have body: "swim_body lyr st = Inr (y, lyr1)"
        using Inr p by simp
      have f1: "features lyr1 = features lyr"
        using body by (rule swim_body_features)
      show ?thesis
      proof (cases y)
        case (Inl f)
        with eq body have "r = Inr (Inl f, lyr1)"
          by simp
        with f1 show ?thesis
          by simp
      next
        case (Inr st')
        with eq body have "swim' lyr1 st' = Some r"
          by simp
        note IH = "1"(1) [OF this]
        show ?thesis
        proof (intro allI impI)
          fix x lyr'
          assume "r = Inr (x, lyr')"
          with IH have "features lyr' = features lyr1"
            by blast
          then show "features lyr' = features lyr"
            using f1 by (rule trans)
        qed
      qed
    qed
  qed
qed

lemma layer_update_eq:
  "features (TA :: layer) = features TB \<Longrightarrow> TA\<lparr>selected := X\<rparr> = TB\<lparr>selected := X\<rparr>"
  by (cases TA, cases TB) simp

lemma FindDownstreamPoint_two_runs:
  assumes A: "lyrsA siteA = Some S" "lyrsA strA = Some TA" "strA \<noteq> ''start''"
    and B: "lyrsB siteB = Some S" "lyrsB strB = Some TB" "strB \<noteq> ''start''"
    and fA: "features TA = map Stream rows" and fB: "features TB = map Stream rows"
  shows "rel_option (rel_sum (=) (rel_prod (=) (same_streams rows strA strB)))
           (FindDownstreamPoint intersects lyrsA siteA strA tolerance)
           (FindDownstreamPoint intersects lyrsB siteB strB tolerance)"
proof -
  let ?M = "filter (\<lambda>f. list_ex (\<lambda>g. intersects tolerance g f) (selected S)) (map Stream rows)"
  show ?thesis
  proof (cases "length ?M = 1")
    case False
    then show ?thesis
      using FindDownstreamPoint_unresolved [where intersects = intersects and tolerance = tolerance, OF A(1,2)]
        FindDownstreamPoint_unresolved [where intersects = intersects and tolerance = tolerance, OF B(1,2)]
        fA fB
      by (simp add: same_streams_def)
  next
    case True
    then obtain f where M: "?M = [f]"
      by (cases ?M) auto
    then have "f \<in> set ?M"
      by simp
    then obtain s where f: "f = Stream s"
      by auto
    have MA: "filter (\<lambda>f. list_ex (\<lambda>g. intersects tolerance g f) (selected S)) (features TA) = [Stream s]"
      and MB: "filter (\<lambda>f. list_ex (\<lambda>g. intersects tolerance g f) (selected S)) (features TB) = [Stream s]"
      using M f fA fB by simp_all
    have eq: "TB\<lparr>selected := [Stream s]\<rparr> = TA\<lparr>selected := [Stream s]\<rparr>"
      using fA fB by (intro layer_update_eq) simp
    let ?sw = "swim (TA\<lparr>selected := [Stream s]\<rparr>) (initial_state s)"
    let ?start = "fresh_layer [Stream s]"
    note ra = FindDownstreamPoint_resolved
          [where intersects = intersects and tolerance = tolerance, OF A MA]
    note rb = FindDownstreamPoint_resolved
          [where intersects = intersects and tolerance = tolerance, OF B MB, unfolded eq]
    have same: "same_streams rows strA strB
                  (lyrsA(strA \<mapsto> lyr', ''start'' \<mapsto> ?start))
                  (lyrsB(strB \<mapsto> lyr', ''start'' \<mapsto> ?start))"
      if "?sw = Some (Inr (x, lyr'))" for x lyr'
    proof -
      have "features lyr' = map Stream rows"
        using swim_features [OF that] fA by simp
      then show ?thesis
        using A(3) B(3) by (simp add: same_streams_def)
    qed
    show ?thesis
    proof (cases ?sw)
      case None
      then show ?thesis
        unfolding ra rb by simp
    next
      case (Some r)
      show ?thesis
      proof (cases r)
        case (Inl e)
        with Some show ?thesis
          unfolding ra rb by simp
      next
        case (Inr p)
        obtain y lyr' where p: "p = (y, lyr')"
          by (cases p)
        have sw: "?sw = Some (Inr (y, lyr'))"
          using Some Inr p by simp
        note s' = same [OF sw]
        show ?thesis
        proof (cases y)
          case (Inl f)
          with sw s' show ?thesis
            unfolding ra rb by simp
        next
          case (Inr st)
          with sw s' show ?thesis
            unfolding ra rb by (cases "endpoint lyr'") simp_all
        qed
      qed
    qed
  qed
qed

lemma for_sites_two_runs:
  assumes "same_streams rows (rndA 0) (rndB 0) lyrsA lyrsB"
    and "rndA 0 \<noteq> ''start''" and "rndB 0 \<noteq> ''start''"
    and "\<forall>j. k \<le> j \<and> j < k + length site_list \<longrightarrow> rndA (Suc j) \<noteq> rndA 0"
    and "\<forall>j. k \<le> j \<and> j < k + length site_list \<longrightarrow> rndB (Suc j) \<noteq> rndB 0"
  shows "for_sites intersects on_False rndA sites (rndA 0) tolerance k site_list lyrsA out =
         for_sites intersects on_False rndB sites (rndB 0) tolerance k site_list lyrsB out"
  using assms
proof (induction site_list arbitrary: k lyrsA lyrsB out)
  case Nil
  show ?case by simp
next
  case (Cons s site_list)
  show ?case
  proof (cases "length (filter (\<lambda>t. site_OID t = s) sites) = 1")
    case False
    show ?thesis
      unfolding for_sites_Cons_other [OF False] ..
  next
    case True
    then obtain t where t: "filter (\<lambda>t. site_OID t = s) sites = [t]"
      by (cases "filter (\<lambda>t. site_OID t = s) sites") auto
    let ?S = "fresh_layer [Site t]"
    let ?A1 = "lyrsA(rndA (Suc k) \<mapsto> ?S)" and ?B1 = "lyrsB(rndB (Suc k) \<mapsto> ?S)"
    let ?fa = "FindDownstreamPoint intersects ?A1 (rndA (Suc k)) (rndA 0) tolerance"
    let ?fb = "FindDownstreamPoint intersects ?B1 (rndB (Suc k)) (rndB 0) tolerance"
    from Cons.prems(1) obtain TA TB where T: "lyrsA (rndA 0) = Some TA" "lyrsB (rndB 0) = Some TB"
      "features TA = map Stream rows" "features TB = map Stream rows"
      by (auto simp: same_streams_def)
    have nA: "rndA (Suc k) \<noteq> rndA 0" and nB: "rndB (Suc k) \<noteq> rndB 0"
      using Cons.prems(4,5) by simp_all
    have rel: "rel_option (rel_sum (=) (rel_prod (=) (same_streams rows (rndA 0) (rndB 0)))) ?fa ?fb"
      using T nA nB Cons.prems(2,3)
      by (intro FindDownstreamPoint_two_runs [where S = ?S and TA = TA and TB = TB]) simp_all
    have step: "for_sites intersects on_False rndA sites (rndA 0) tolerance (Suc k) site_list
                   (la(rndA (Suc k) := None)) out' =
                for_sites intersects on_False rndB sites (rndB 0) tolerance (Suc k) site_list
                   (lb(rndB (Suc k) := None)) out'"
      if "same_streams rows (rndA 0) (rndB 0) la lb" for la lb out'
    proof (rule Cons.IH)
      show "same_streams rows (rndA 0) (rndB 0) (la(rndA (Suc k) := None)) (lb(rndB (Suc k) := None))"
        using that nA nB by (simp add: same_streams_def)
      show "rndA 0 \<noteq> ''start''" and "rndB 0 \<noteq> ''start''"
        using Cons.prems(2,3) by simp_all
      show "\<forall>j. Suc k \<le> j \<and> j < Suc k + length site_list \<longrightarrow> rndA (Suc j) \<noteq> rndA 0"
        using Cons.prems(4) by simp
      show "\<forall>j. Suc k \<le> j \<and> j < Suc k + length site_list \<longrightarrow> rndB (Suc j) \<noteq> rndB 0"
        using Cons.prems(5) by simp
    qed
    show ?thesis
    proof (cases ?fa)
      case None
      with rel have "?fb = None"
        by (cases ?fb) simp_all
      with None show ?thesis
        by (simp only: for_sites_Cons_one [OF t] option.case)
    next
      case (Some ra)
      with rel obtain rb where rb: "?fb = Some rb"
        and r: "rel_sum (=) (rel_prod (=) (same_streams rows (rndA 0) (rndB 0))) ra rb"
        by (cases ?fb) simp_all
      show ?thesis
      proof (cases ra)
        case (Inl e)
        with r have "rb = Inl e"
          by (cases rb) simp_all
        with Some rb Inl show ?thesis
          by (simp only: for_sites_Cons_one [OF t] option.case sum.case)
      next
        case (Inr pa)
        with r obtain pb where pb: "rb = Inr pb"
          and p: "rel_prod (=) (same_streams rows (rndA 0) (rndB 0)) pa pb"
          by (cases rb) simp_all
        obtain xy la where pa: "pa = (xy, la)"
          by (cases pa)
        with p obtain lb where pb': "pb = (xy, lb)" and l: "same_streams rows (rndA 0) (rndB 0) la lb"
          by (cases pb) simp_all
        have fa: "?fa = Some (Inr (xy, la))" and fb: "?fb = Some (Inr (xy, lb))"
          using Some rb Inr pb pa pb' by simp_all
        show ?thesis
          unfolding for_sites_Cons_one [OF t] fa fb
          by (cases "insertRow on_False out xy (replace_spaces (Sites t))")
            (simp_all only: option.case sum.case prod.case step [OF l])
      qed
    qed
  qed
qed

text \<open>
  C10, as the program has it. Two runs on the same sites, stream table and tolerance
  end alike and leave the same output rows whenever, in each run, no site layer was
  given the name of the stream layer. (Every name drawn has seven characters, so none is
  the fixed name "start".)
\<close>

theorem layer_names_matter_only_when_they_clash:
  assumes "is_random_name (rnd 0)" and "is_random_name (rnd' 0)"
    and "\<forall>j<length sites. rnd (Suc j) \<noteq> rnd 0"
    and "\<forall>j<length sites. rnd' (Suc j) \<noteq> rnd' 0"
  shows "Main intersects on_False rnd sites streams tolerance =
         Main intersects on_False rnd' sites streams tolerance"
proof -
  have "name \<noteq> ''start''" if "is_random_name name" for name
  proof -
    from that have "length name = 7"
      unfolding is_random_name_def by (rule conjunct1)
    then show ?thesis
      by auto
  qed
  with assms(1,2) have s: "rnd 0 \<noteq> ''start''" "rnd' 0 \<noteq> ''start''"
    by simp_all
  have "for_sites intersects on_False rnd sites (rnd 0) tolerance 0 (map site_OID sites)
          [rnd 0 \<mapsto> fresh_layer (map Stream (fc_rows streams))] [] =
        for_sites intersects on_False rnd' sites (rnd' 0) tolerance 0 (map site_OID sites)
          [rnd' 0 \<mapsto> fresh_layer (map Stream (fc_rows streams))] []"
    using s assms(3,4)
    by (intro for_sites_two_runs [where rows = "fc_rows streams"])
      (simp_all add: same_streams_def fresh_layer_def)
  then show ?thesis
    by (simp add: Main_def Let_def)
qed

theorem layer_names_matter_only_when_they_clash_witness:
  "Main within_tolerance insert_raises names_apart [site_A] (stream_table chain23) 1 =
   Main within_tolerance insert_raises names_other [site_A] (stream_table chain23) 1 \<and>
   Main within_tolerance insert_raises names_other [site_A] (stream_table chain23) 1 =
     Some \<lparr>outcome = ReturnedOutput, output_rows = Some [((0, 0), ''Site_A'')]\<rparr>"
proof
  show "Main within_tolerance insert_raises names_apart [site_A] (stream_table chain23) 1 =
        Main within_tolerance insert_raises names_other [site_A] (stream_table chain23) 1"
    by (rule layer_names_matter_only_when_they_clash) (simp_all add: is_random_name_def)
next
  show "Main within_tolerance insert_raises names_other [site_A] (stream_table chain23) 1 =
     Some \<lparr>outcome = ReturnedOutput, output_rows = Some [((0, 0), ''Site_A'')]\<rparr>"
    by (simp add: eval_defs example_defs)
qed

text \<open>
  C10 as it is stated fails: when the layer of a site draws the name of the stream
  layer, the site layer replaces the stream layer, the site resolves to itself, and
  reading StrahlerOr from its attributes raises KeyError. The same input with names
  that differ yields the row of the site.
\<close>

theorem layer_names_clash_counterexample:
  "is_random_name (names_apart 0) \<and> is_random_name (names_apart 1) \<and>
   is_random_name (names_same 0) \<and> is_random_name (names_same 1) \<and>
   Main within_tolerance insert_raises names_apart [site_A] (stream_table chain23) 1 =
     Some \<lparr>outcome = ReturnedOutput, output_rows = Some [((0, 0), ''Site_A'')]\<rparr> \<and>
   Main within_tolerance insert_raises names_same [site_A] (stream_table chain23) 1 =
     Some \<lparr>outcome = Raised KeyError, output_rows = Some []\<rparr>"
  by (simp add: eval_defs example_defs is_random_name_def)

end
